theory Spec2Isabelle
  imports Main
begin

section \<open>Data model\<close>

text \<open>
  Timestamps (arrow instants in the source) are integers; only their order is used.
  Python strings are \<open>string\<close>.
\<close>

text \<open>
  Modelled from the spec: the class \<open>Frame\<close> of \<open>frames.py\<close>, which is not part of the
  sources at hand. A frame is an immutable record of the six fields the source passes to
  the constructor, in the constructor's order; two frames are equal when every field is.
  The field \<open>id\<close> is named \<open>frame_id\<close> here.
\<close>

record frame =
  start :: int
  stop :: int
  project :: string
  frame_id :: string
  tags :: "string list"
  updated_at :: int

text \<open>
  Modelled from the spec: the constructor call
  \<^verbatim>\<open>Frame(start, stop, project, id, tags, updated_at)\<close>. The wire format makes
  \<open>updated_at\<close> optional; the value a frame gets when it is missing is the parameter
  \<open>now\<close>.
\<close>

definition Frame :: "int \<Rightarrow> int \<Rightarrow> int \<Rightarrow> string \<Rightarrow> string \<Rightarrow> string list \<Rightarrow> int option \<Rightarrow> frame" where
  "Frame now s e p i ts u =
     \<lparr>start = s, stop = e, project = p, frame_id = i, tags = ts,
      updated_at = (case u of None \<Rightarrow> now | Some t \<Rightarrow> t)\<rparr>"

text \<open>
  Modelled from the spec: the class \<open>Frames\<close> of \<open>frames.py\<close> (the frame store), not part
  of the sources at hand: a collection of frames keyed by id, iterated in a fixed order,
  with a membership test by id, a lookup by id that fails when the id is absent, and
  insertion or overwrite by id. The store is the list of its frames in iteration order.
\<close>

type_synonym Frames = "frame list"

datatype exc_class = WatsonError | ConfigurationError | TypeError | ValueError


text \<open>The records of the remote's JSON: a project of the listing, a frame of a pull.\<close>

record remote_project =
  name :: string
  url :: string

record remote_frame =
  r_start :: int
  r_stop :: int
  r_project :: string
  r_id :: string
  r_tags :: "string list"
  r_updated_at :: "int option"

text \<open>One element of the JSON array that \<open>push\<close> uploads.\<close>

record upload =
  u_id :: string
  u_start :: string
  u_stop :: string
  u_project :: string
  u_tags :: "string list"

text \<open>
  The body of a response, as \<^verbatim>\<open>response.json()\<close> gives it. Each endpoint answers
  in its own wire format; an error message that quotes a body wraps it in \<open>body\<close>.
\<close>

datatype body =
    JProjects "remote_project list"
  | JFrames "remote_frame list"
  | JText string

text \<open>
  An exception is its class and its message; a message is its template and the values
  formatted into it.
\<close>

datatype message =
    MustSpecifyUrlAndToken
  | UnableToReachServer
  | RemoteServerError body
  | ProjectDoesNotExist string string
  | StringIndices
  | JSONDecodeError
  | BackendNameEmpty
  | BackendFailedToLoad string
  | BackendNotInstalled string
  | InvalidJSONFile
  | UnexpectedLoadError

datatype error = Raised exc_class message


section \<open>The HTTP backend (artichio.py)\<close>

text \<open>
  The configuration, read through \<^verbatim>\<open>config.get('backend', key)\<close>, which gives
  \<open>None\<close> for a key that is not set. \<open>backend_name\<close> is the option \<open>backend.name\<close>.
\<close>

record config =
  backend_url :: "string option"
  token :: "string option"
  backend_name :: "string option"

type_synonym headers = "(string \<times> string) list"

datatype request =
    GET string "(string \<times> int) list" headers
  | POST string "upload list" headers

text \<open>
  What a request gives: \<open>requests.ConnectionError\<close>, or a response, which is its status
  code and what \<^verbatim>\<open>response.json()\<close> makes of its body: the parsed value, or \<open>None\<close>
  when the body is not JSON and \<^verbatim>\<open>json()\<close> raises its decode error, a
  \<open>ValueError\<close>.
\<close>

datatype 'a response = ConnectionError | Response nat "'a option"

text \<open>
  The network, as the \<open>requests\<close> library shows it: the answer to a request may depend on
  the requests the instance has issued before it.
\<close>

record network =
  get_projects :: "request list \<Rightarrow> request \<Rightarrow> remote_project list response"
  get_frames :: "request list \<Rightarrow> request \<Rightarrow> remote_frame list response"
  post_bulk :: "request list \<Rightarrow> request \<Rightarrow> string response"

text \<open>
  An instance of \<open>ArtichIOSync\<close>: its configuration, the attribute
  \<open>_remote_projects\<close> (\<open>None\<close> while the instance does not have it), and the requests
  it has issued so far, oldest first.
\<close>

record ArtichIOSync =
  config :: config
  remote_projects :: "remote_project list option"
  sent :: "request list"

definition init :: "config \<Rightarrow> ArtichIOSync" where
  "init c = \<lparr>config = c, remote_projects = None, sent = []\<rparr>"

text \<open>\<^verbatim>\<open>s.rstrip(c)\<close>, \<^verbatim>\<open>s.lstrip(c)\<close> and \<^verbatim>\<open>s.strip(c)\<close> for one character.\<close>

definition rstrip :: "char \<Rightarrow> string \<Rightarrow> string" where
  "rstrip c s = rev (dropWhile (\<lambda>x. x = c) (rev s))"

definition lstrip :: "char \<Rightarrow> string \<Rightarrow> string" where
  "lstrip c s = dropWhile (\<lambda>x. x = c) s"

definition strip :: "char \<Rightarrow> string \<Rightarrow> string" where
  "strip c s = rstrip c (lstrip c s)"

text \<open>Truth value of \<open>None\<close> or a string: a string is true when it is not empty.\<close>

fun truthy :: "string option \<Rightarrow> bool" where
  "truthy None = False"
| "truthy (Some s) = (s \<noteq> [])"

definition get_request_info :: "config \<Rightarrow> string \<Rightarrow> error + (string \<times> headers)" where
  "get_request_info c route =
     (if truthy (backend_url c) \<and> truthy (token c) then
        Inr (rstrip CHR ''/'' (the (backend_url c)) @ ''/'' @ strip CHR ''/'' route @ ''/'',
             [(''content-type'', ''application/json''),
              (''Authorization'', ''Token '' @ the (token c))])
      else Inl (Raised ConfigurationError MustSpecifyUrlAndToken))"

text \<open>
  \<^verbatim>\<open>response.json()\<close>, which every use of a body goes through: in the handler of
  the failed assertion on the status as well, where the decode error of a body that is not
  JSON replaces the \<open>WatsonError\<close> being built.
\<close>

definition json :: "'a option \<Rightarrow> error + 'a" where
  "json b = (case b of Some v \<Rightarrow> Inr v | None \<Rightarrow> Inl (Raised ValueError JSONDecodeError))"

text \<open>
  \<^verbatim>\<open>_get_remote_projects\<close>. An instance that has the attribute returns it; one that
  does not asks the projects endpoint, and keeps the answer only when the status is 200.
\<close>

definition get_remote_projects ::
  "network \<Rightarrow> ArtichIOSync \<Rightarrow> (error + remote_project list) \<times> ArtichIOSync" where
  "get_remote_projects net s =
     (case remote_projects s of
        Some ps \<Rightarrow> (Inr ps, s)
      | None \<Rightarrow>
          (case get_request_info (config s) ''projects'' of
             Inl e \<Rightarrow> (Inl e, s)
           | Inr (dest, hs) \<Rightarrow>
               (let rq = GET dest [] hs; s1 = s\<lparr>sent := sent s @ [rq]\<rparr> in
                case get_projects net (sent s) rq of
                  ConnectionError \<Rightarrow> (Inl (Raised WatsonError UnableToReachServer), s1)
                | Response code b \<Rightarrow>
                    if code = 200 then
                      (case json b of
                         Inl e \<Rightarrow> (Inl e, s1)
                       | Inr ps \<Rightarrow> (Inr ps, s1\<lparr>remote_projects := Some ps\<rparr>))
                    else
                      (case json b of
                         Inl e \<Rightarrow> (Inl e, s1)
                       | Inr ps \<Rightarrow>
                           (Inl (Raised WatsonError (RemoteServerError (JProjects ps))), s1)))))"

text \<open>
  \<^verbatim>\<open>ArtichIOSync.pull\<close> is a generator. Its run is the list of the frames it yields
  and the exception that ends it, if one does, with the instance as the run leaves it.
  The loop over the frames of the response: the project's name is that of the first
  project of the listing with the frame's URL. When there is none, the handler formats
  \<^verbatim>\<open>frame['project']['id']\<close>, an index by a string into the URL, a string: Python
  raises \<open>TypeError\<close> there, before the \<open>WatsonError\<close> is built.
\<close>

fun pull_frames ::
  "network \<Rightarrow> int \<Rightarrow> ArtichIOSync \<Rightarrow> remote_frame list
     \<Rightarrow> (frame list \<times> error option) \<times> ArtichIOSync" where
  "pull_frames net now s [] = (([], None), s)"
| "pull_frames net now s (f # fs) =
     (case get_remote_projects net s of
        (Inl e, s1) \<Rightarrow> (([], Some e), s1)
      | (Inr ps, s1) \<Rightarrow>
          (case find (\<lambda>p. url p = r_project f) ps of
             None \<Rightarrow> (([], Some (Raised TypeError StringIndices)), s1)
           | Some p \<Rightarrow>
               (case pull_frames net now s1 fs of
                  ((ys, err), s2) \<Rightarrow>
                    ((Frame now (r_start f) (r_stop f) (name p) (r_id f) (r_tags f)
                        (r_updated_at f) # ys, err), s2))))"

definition ArtichIOSync_pull ::
  "network \<Rightarrow> int \<Rightarrow> ArtichIOSync \<Rightarrow> int \<Rightarrow> (frame list \<times> error option) \<times> ArtichIOSync" where
  "ArtichIOSync_pull net now s last_sync =
     (case get_request_info (config s) ''frames'' of
        Inl e \<Rightarrow> (([], Some e), s)
      | Inr (dest, hs) \<Rightarrow>
          (let rq = GET dest [(''last_sync'', last_sync)] hs; s1 = s\<lparr>sent := sent s @ [rq]\<rparr> in
           case get_frames net (sent s) rq of
             ConnectionError \<Rightarrow> (([], Some (Raised WatsonError UnableToReachServer)), s1)
           | Response code b \<Rightarrow>
               if code = 200 then
                 (case json b of
                    Inl e \<Rightarrow> (([], Some e), s1)
                  | Inr fs \<Rightarrow> pull_frames net now s1 fs)
               else
                 (case json b of
                    Inl e \<Rightarrow> (([], Some e), s1)
                  | Inr fs \<Rightarrow>
                      (([], Some (Raised WatsonError (RemoteServerError (JFrames fs)))), s1))))"

text \<open>
  \<^verbatim>\<open>ArtichIOSync.push\<close>: the loop that fills \<open>to_upload\<close>, then the request.
  \<open>str\<close> is \<^verbatim>\<open>str\<close> on a timestamp.
\<close>

fun push_frames ::
  "network \<Rightarrow> (int \<Rightarrow> string) \<Rightarrow> ArtichIOSync \<Rightarrow> upload list \<Rightarrow> frame list
     \<Rightarrow> (error + upload list) \<times> ArtichIOSync" where
  "push_frames net str s to_upload [] = (Inr to_upload, s)"
| "push_frames net str s to_upload (f # fs) =
     (case get_remote_projects net s of
        (Inl e, s1) \<Rightarrow> (Inl e, s1)
      | (Inr ps, s1) \<Rightarrow>
          (case find (\<lambda>p. name p = project f) ps of
             None \<Rightarrow>
               (Inl (Raised WatsonError (ProjectDoesNotExist (project f) (frame_id f))), s1)
           | Some p \<Rightarrow>
               push_frames net str s1
                 (to_upload @
                    [\<lparr>u_id = frame_id f, u_start = str (start f), u_stop = str (stop f),
                      u_project = url p, u_tags = tags f\<rparr>]) fs))"

definition ArtichIOSync_push ::
  "network \<Rightarrow> (int \<Rightarrow> string) \<Rightarrow> ArtichIOSync \<Rightarrow> frame list
     \<Rightarrow> (error + upload list) \<times> ArtichIOSync" where
  "ArtichIOSync_push net str s fs =
     (case get_request_info (config s) ''frames/bulk'' of
        Inl e \<Rightarrow> (Inl e, s)
      | Inr (dest, hs) \<Rightarrow>
          (case push_frames net str s [] fs of
             (Inl e, s1) \<Rightarrow> (Inl e, s1)
           | (Inr to_upload, s1) \<Rightarrow>
               (let rq = POST dest to_upload hs; s2 = s1\<lparr>sent := sent s1 @ [rq]\<rparr> in
                case post_bulk net (sent s1) rq of
                  ConnectionError \<Rightarrow> (Inl (Raised WatsonError UnableToReachServer), s2)
                | Response code b \<Rightarrow>
                    if code = 201 then (Inr to_upload, s2)
                    else
                      (case json b of
                         Inl e \<Rightarrow> (Inl e, s2)
                       | Inr t \<Rightarrow> (Inl (Raised WatsonError (RemoteServerError (JText t))), s2)))))"

section \<open>The frame store\<close>

text \<open>
  Modelled from the spec: the operations of \<open>Frames\<close> that \<open>watson.py\<close> uses, the class
  itself not being part of the sources at hand. \<^verbatim>\<open>id in frames\<close> is \<open>contains\<close>;
  \<^verbatim>\<open>frames[id]\<close> is \<open>getitem\<close>, \<open>None\<close> standing for \<open>KeyError\<close>;
  \<^verbatim>\<open>frames[id] = frame\<close> is \<open>setitem\<close>, which overwrites the frame stored under the
  id in place and appends when there is none; the stored frame carries the key as its id.
\<close>

definition contains :: "Frames \<Rightarrow> string \<Rightarrow> bool" where
  "contains fs i = (i \<in> set (map frame_id fs))"

definition getitem :: "Frames \<Rightarrow> string \<Rightarrow> frame option" where
  "getitem fs i = find (\<lambda>f. frame_id f = i) fs"

fun setitem :: "Frames \<Rightarrow> string \<Rightarrow> frame \<Rightarrow> Frames" where
  "setitem [] i v = [v\<lparr>frame_id := i\<rparr>]"
| "setitem (f # fs) i v =
     (if frame_id f = i then v\<lparr>frame_id := i\<rparr> # fs else f # setitem fs i v)"

section \<open>The sync engine (watson.py)\<close>

text \<open>
  A sync backend, as \<open>Watson\<close> uses one: \<open>pull\<close> gives the run of a generator (the
  frames yielded, then the exception that ended it, if any), \<open>push\<close> takes the frames
  and returns or raises. A backend class builds a backend from the configuration.
\<close>

record backend =
  b_pull :: "int \<Rightarrow> frame list \<times> error option"
  b_push :: "frame list \<Rightarrow> error + upload list"

text \<open>
  The class \<open>ArtichIOSync\<close> as a backend class. \<open>Watson\<close> builds a new instance for
  every call of \<open>pull\<close> and of \<open>push\<close>, and makes one call on it.
\<close>

definition ArtichIOSync_class :: "network \<Rightarrow> int \<Rightarrow> (int \<Rightarrow> string) \<Rightarrow> config \<Rightarrow> backend" where
  "ArtichIOSync_class net now str c =
     \<lparr>b_pull = (\<lambda>last_sync. fst (ArtichIOSync_pull net now (init c) last_sync)),
      b_push = (\<lambda>fs. fst (ArtichIOSync_push net str (init c) fs))\<rparr>"

text \<open>
  The \<open>Watson\<close> object, with its frames, its cursor and its configuration loaded (the
  properties \<open>frames\<close>, \<open>last_sync\<close> and \<open>config\<close> read their file on first access
  only; the constructor's arguments set them directly).
\<close>

record Watson =
  frames :: Frames
  last_sync :: int
  watson_config :: config

text \<open>
  The entry points of the group \<open>watson.sync\<close>: the name of each plugin and what
  \<^verbatim>\<open>plugin.load()\<close> gives, \<open>None\<close> when it raises.
\<close>

type_synonym entry_points = "(string \<times> (config \<Rightarrow> backend) option) list"

fun find_plugin :: "string \<Rightarrow> entry_points \<Rightarrow> error + (config \<Rightarrow> backend)" where
  "find_plugin n [] = Inl (Raised WatsonError (BackendNotInstalled n))"
| "find_plugin n ((pn, l) # ps) =
     (if pn = n then
        (case l of Some cls \<Rightarrow> Inr cls | None \<Rightarrow> Inl (Raised WatsonError (BackendFailedToLoad n)))
      else find_plugin n ps)"

definition load_backend :: "entry_points \<Rightarrow> Watson \<Rightarrow> error + (config \<Rightarrow> backend)" where
  "load_backend eps w =
     (let n = (case backend_name (watson_config w) of Some n \<Rightarrow> n | None \<Rightarrow> ''artichio'') in
      if n = [] then Inl (Raised WatsonError BackendNameEmpty) else find_plugin n eps)"

text \<open>
  \<^verbatim>\<open>Watson.pull\<close>: the loop over the frames the backend yields, on the store and the
  list \<open>frames\<close> of the result; then the method, which returns the list or raises what
  the backend raised, with the object as the call leaves it.
\<close>

fun pull_loop :: "int \<Rightarrow> Frames \<Rightarrow> frame list \<Rightarrow> frame list \<Rightarrow> Frames \<times> frame list" where
  "pull_loop ls st acc [] = (st, acc)"
| "pull_loop ls st acc (f # fs) =
     (if \<not> contains st (frame_id f) \<or> updated_at f > ls
      then pull_loop ls (setitem st (frame_id f) f) (acc @ [f]) fs
      else pull_loop ls st acc fs)"

definition Watson_pull :: "entry_points \<Rightarrow> Watson \<Rightarrow> (error + frame list) \<times> Watson" where
  "Watson_pull eps w =
     (case load_backend eps w of
        Inl e \<Rightarrow> (Inl e, w)
      | Inr cls \<Rightarrow>
          (case b_pull (cls (watson_config w)) (last_sync w) of
             (ys, err) \<Rightarrow>
               (case pull_loop (last_sync w) (frames w) [] ys of
                  (st, acc) \<Rightarrow>
                    ((case err of None \<Rightarrow> Inr acc | Some e \<Rightarrow> Inl e), w\<lparr>frames := st\<rparr>))))"

text \<open>\<^verbatim>\<open>Watson.push\<close>: the frames of the generator expression, handed to the backend.\<close>

definition push_batch :: "Watson \<Rightarrow> int \<Rightarrow> frame list" where
  "push_batch w last_pull =
     filter (\<lambda>f. last_pull > updated_at f \<and> updated_at f > last_sync w) (frames w)"

definition Watson_push :: "entry_points \<Rightarrow> Watson \<Rightarrow> int \<Rightarrow> (error + upload list) \<times> Watson" where
  "Watson_push eps w last_pull =
     (case load_backend eps w of
        Inl e \<Rightarrow> (Inl e, w)
      | Inr cls \<Rightarrow> (b_push (cls (watson_config w)) (push_batch w last_pull), w))"

text \<open>
  \<^verbatim>\<open>_load_json_file\<close>, on what opening and parsing the file gives: no file
  (\<open>IOError\<close>), an empty file, content that is not JSON, another failure, or the content.
\<close>

datatype 'a json_file = NoFile | EmptyFile | InvalidFile | UnexpectedFailure | Content 'a

definition load_json_file :: "'a json_file \<Rightarrow> 'a \<Rightarrow> error + 'a" where
  "load_json_file f dflt =
     (case f of
        Content x \<Rightarrow> Inr x
      | NoFile \<Rightarrow> Inr dflt
      | EmptyFile \<Rightarrow> Inr dflt
      | InvalidFile \<Rightarrow> Inl (Raised WatsonError InvalidJSONFile)
      | UnexpectedFailure \<Rightarrow> Inl (Raised WatsonError UnexpectedLoadError))"

text \<open>\<^verbatim>\<open>Watson.merge_report\<close>: the loop over the conflict frames, then the method.\<close>

fun merge_loop :: "Frames \<Rightarrow> frame list \<Rightarrow> frame list \<Rightarrow> frame list \<Rightarrow> frame list \<times> frame list" where
  "merge_loop st conflicting merging [] = (conflicting, merging)"
| "merge_loop st conflicting merging (g # gs) =
     (case getitem st (frame_id g) of
        Some original \<Rightarrow>
          if original \<noteq> g then merge_loop st (conflicting @ [g]) merging gs
          else merge_loop st conflicting merging gs
      | None \<Rightarrow> merge_loop st conflicting (merging @ [g]) gs)"

definition merge_report :: "Watson \<Rightarrow> frame list json_file \<Rightarrow> error + (frame list \<times> frame list)" where
  "merge_report w frames_with_conflict =
     (case load_json_file frames_with_conflict [] of
        Inl e \<Rightarrow> Inl e
      | Inr cs \<Rightarrow> Inr (merge_loop (frames w) [] [] cs))"

section \<open>Notions the properties are stated with\<close>

text \<open>
  A frame resolves in a listing when a project of the listing has its project name; its
  record is the object uploaded for it, with the URL of the first such project; a request
  is a bulk upload when it is a POST (the backend posts to no other endpoint).
\<close>

text \<open>
  The frames of a yielded sequence \<open>ys\<close> that \<open>pull\<close> is to apply, given the ids \<open>ids\<close>
  that the store holds before the call. When the frame at position \<open>i\<close> arrives the
  store holds \<open>ids\<close> and the ids of the frames yielded before it; the frame is applied
  when its id is not among them or its \<open>updated_at\<close> is greater than the cursor.
  \<open>returned\<close> lists the applied frames in the order of \<open>ys\<close>.
\<close>

definition applies :: "int \<Rightarrow> string set \<Rightarrow> frame list \<Rightarrow> nat \<Rightarrow> bool" where
  "applies ls ids ys i =
     (frame_id (ys ! i) \<notin> ids \<union> frame_id ` set (take i ys) \<or> ls < updated_at (ys ! i))"

definition returned :: "int \<Rightarrow> string set \<Rightarrow> frame list \<Rightarrow> frame list" where
  "returned ls ids ys = map (\<lambda>i. ys ! i) (filter (applies ls ids ys) [0..<length ys])"

definition resolves :: "remote_project list \<Rightarrow> frame \<Rightarrow> bool" where
  "resolves ps f = (project f \<in> set (map name ps))"

definition record_of :: "(int \<Rightarrow> string) \<Rightarrow> remote_project list \<Rightarrow> frame \<Rightarrow> upload" where
  "record_of str ps f =
     \<lparr>u_id = frame_id f, u_start = str (start f), u_stop = str (stop f),
      u_project = url (the (find (\<lambda>p. name p = project f) ps)), u_tags = tags f\<rparr>"

fun is_POST :: "request \<Rightarrow> bool" where
  "is_POST (POST d b h) = True"
| "is_POST (GET d p h) = False"

section \<open>Concrete inputs\<close>

text \<open>A store, a listing, frames and a network on which the theorems below are run.\<close>

definition ex_local :: frame where
  "ex_local = \<lparr>start = 10, stop = 20, project = ''A'', frame_id = ''1'', tags = [], updated_at = 100\<rparr>"

definition ex_w :: Watson where
  "ex_w = \<lparr>frames = [ex_local], last_sync = 100,
      watson_config = \<lparr>backend_url = Some ''http://h'', token = Some ''k'', backend_name = None\<rparr>\<rparr>"

definition ex_projects :: "remote_project list" where
  "ex_projects = [\<lparr>name = ''A'', url = ''http://h/projects/1/''\<rparr>]"

definition ex_remote :: "string \<Rightarrow> int \<Rightarrow> int \<Rightarrow> remote_frame" where
  "ex_remote i e u =
     \<lparr>r_start = 10, r_stop = e, r_project = ''http://h/projects/1/'', r_id = i, r_tags = [],
      r_updated_at = Some u\<rparr>"

definition ex_frame :: "string \<Rightarrow> int \<Rightarrow> int \<Rightarrow> frame" where
  "ex_frame i e u =
     \<lparr>start = 10, stop = e, project = ''A'', frame_id = i, tags = [], updated_at = u\<rparr>"

definition ex_str :: "int \<Rightarrow> string" where
  "ex_str t = replicate (nat t) CHR ''I''"

definition ex_net :: "remote_frame list \<Rightarrow> network" where
  "ex_net fs =
     \<lparr>get_projects = (\<lambda>lg rq. Response 200 (Some ex_projects)),
      get_frames = (\<lambda>lg rq. Response 200 (Some fs)),
      post_bulk = (\<lambda>lg rq. Response 201 (Some ''[]''))\<rparr>"

definition ex_eps :: "remote_frame list \<Rightarrow> entry_points" where
  "ex_eps fs = [(''artichio'', Some (ArtichIOSync_class (ex_net fs) 0 ex_str))]"

definition ex_config :: config where
  "ex_config = \<lparr>backend_url = Some ''http://h'', token = Some ''k'', backend_name = None\<rparr>"

definition ex_headers :: headers where
  "ex_headers = [(''content-type'', ''application/json''), (''Authorization'', ''Token k'')]"

definition ex_fetched :: ArtichIOSync where
  "ex_fetched = \<lparr>config = ex_config, remote_projects = Some ex_projects,
      sent = [GET ''http://h/projects/'' [] ex_headers]\<rparr>"

definition ex_flaky :: network where
  "ex_flaky =
     \<lparr>get_projects = (\<lambda>lg rq. if lg = [] then ConnectionError else Response 200 (Some ex_projects)),
      get_frames = (\<lambda>lg rq. Response 200 (Some [])),
      post_bulk = (\<lambda>lg rq. Response 201 (Some ''[]''))\<rparr>"

definition ex_down :: network where
  "ex_down =
     \<lparr>get_projects = (\<lambda>lg rq. ConnectionError),
      get_frames = (\<lambda>lg rq. ConnectionError),
      post_bulk = (\<lambda>lg rq. ConnectionError)\<rparr>"

definition ex_500 :: network where
  "ex_500 =
     \<lparr>get_projects = (\<lambda>lg rq. Response 500 (Some [])),
      get_frames = (\<lambda>lg rq. Response 500 (Some [])),
      post_bulk = (\<lambda>lg rq. Response 500 (Some ''Server Error''))\<rparr>"

definition ex_unknown :: "remote_frame list" where
  "ex_unknown =
     [ex_remote ''2'' 20 50, (ex_remote ''3'' 20 60)\<lparr>r_project := ''http://h/projects/9/''\<rparr>]"

definition ex_eps_down :: entry_points where
  "ex_eps_down = [(''artichio'', Some (ArtichIOSync_class ex_down 0 ex_str))]"

section \<open>Properties\<close>

lemma rstrip_append_replicate:
  "b = [] \<or> last b \<noteq> c \<Longrightarrow> rstrip c (b @ replicate n c) = b"
proof -
  assume h: "b = [] \<or> last b \<noteq> c"
  have "dropWhile (\<lambda>x. x = c) (replicate n c @ rev b) = dropWhile (\<lambda>x. x = c) (rev b)"
    by (induction n) simp_all
  moreover have "dropWhile (\<lambda>x. x = c) (rev b) = rev b"
    using h by (cases b rule: rev_cases) auto
  ultimately show ?thesis by (simp add: rstrip_def)
qed

lemma strip_core:
  assumes "r = [] \<or> (hd r \<noteq> c \<and> last r \<noteq> c)"
  shows "strip c (replicate n c @ r @ replicate m c) = r"
proof (cases "r = []")
  case True
  have "lstrip c (replicate n c @ replicate m c) = []"
    by (auto simp: lstrip_def dropWhile_eq_Nil_conv)
  then show ?thesis
    using True by (simp add: strip_def rstrip_def)
next
  case False
  then have "dropWhile (\<lambda>x. x = c) (r @ replicate m c) = r @ replicate m c"
    using assms by (cases r) auto
  moreover have "lstrip c (replicate n c @ xs) = dropWhile (\<lambda>x. x = c) xs" for xs
    unfolding lstrip_def by (induction n) simp_all
  ultimately have "lstrip c (replicate n c @ r @ replicate m c) = r @ replicate m c"
    by simp
  then show ?thesis
    using False assms rstrip_append_replicate [of r c m] by (simp add: strip_def)
qed

text \<open>
  C9. With a URL and a token configured, the destination is the URL without its trailing
  slashes, one slash, the route without its leading and trailing slashes, one slash:
  whatever the number \<open>n\<close> of slashes after the URL's base and the numbers \<open>a\<close> and
  \<open>b\<close> of slashes around the route's core.
\<close>

theorem request_destination:
  assumes "u = base @ replicate n CHR ''/''"
    and "base = [] \<or> last base \<noteq> CHR ''/''"
    and "route = replicate a CHR ''/'' @ r @ replicate b CHR ''/''"
    and "r = [] \<or> (hd r \<noteq> CHR ''/'' \<and> last r \<noteq> CHR ''/'')"
    and "u \<noteq> []" and "t \<noteq> []"
  shows "get_request_info \<lparr>backend_url = Some u, token = Some t, backend_name = bn\<rparr> route =
           Inr (base @ ''/'' @ r @ ''/'',
                [(''content-type'', ''application/json''), (''Authorization'', ''Token '' @ t)])"
proof -
  have 1: "rstrip CHR ''/'' u = base"
    using assms(1,2) rstrip_append_replicate by blast
  have 2: "strip CHR ''/'' route = r"
    using assms(3,4) strip_core [of r "CHR ''/''" a b] by simp
  show ?thesis
    using 1 2 assms(5,6) by (simp add: get_request_info_def)
qed

theorem request_destination_witness:
  "get_request_info \<lparr>backend_url = Some ''http://h//'', token = Some ''k'', backend_name = None\<rparr>
       ''/frames/bulk/'' =
     Inr (''http://h/frames/bulk/'',
          [(''content-type'', ''application/json''), (''Authorization'', ''Token k'')])"
  using request_destination [of "''http://h//''" "''http://h''" 2 "''/frames/bulk/''" 1
      "''frames/bulk''" 1 "''k''" None]
  by (simp add: numeral_2_eq_2)

lemmas ex_defs = ex_w_def ex_local_def ex_projects_def ex_remote_def ex_frame_def ex_str_def
  ex_net_def ex_eps_def

lemmas run_defs = load_backend_def ArtichIOSync_class_def ArtichIOSync_pull_def
  ArtichIOSync_push_def get_request_info_def get_remote_projects_def init_def rstrip_def
  strip_def lstrip_def Frame_def contains_def getitem_def json_def

lemma getitem_None: "getitem st i = None \<longleftrightarrow> \<not> contains st i"
  by (auto simp: getitem_def contains_def find_None_iff)

lemma merge_loop_filter:
  "merge_loop st c m gs =
     (c @ filter (\<lambda>g. contains st (frame_id g) \<and> getitem st (frame_id g) \<noteq> Some g) gs,
      m @ filter (\<lambda>g. \<not> contains st (frame_id g)) gs)"
proof (induction gs arbitrary: c m)
  case Nil
  then show ?case by simp
next
  case (Cons g gs)
  show ?case
  proof (cases "getitem st (frame_id g)")
    case None
    then show ?thesis using Cons getitem_None [of st "frame_id g"] by simp
  next
    case (Some f)
    then have "contains st (frame_id g)"
      using getitem_None [of st "frame_id g"] by auto
    then show ?thesis using Cons Some by auto
  qed
qed

text \<open>
  C3. \<open>merge_report\<close> on a conflict set \<open>cs\<close> returns two lists. The conflicting list
  is \<open>cs\<close> filtered, in order, to the frames under whose id the store holds a frame that
  differs from them in some field; the merging list is \<open>cs\<close> filtered, in order, to the
  frames under whose id the store holds nothing. A frame of \<open>cs\<close> is in neither list
  exactly when the store holds an equal frame under its id, and never in both.
\<close>

theorem merge_report_classification:
  "\<exists>conflicting merging.
     merge_report w (Content cs) = Inr (conflicting, merging)
   \<and> conflicting =
       filter (\<lambda>g. \<exists>f. getitem (frames w) (frame_id g) = Some f \<and> f \<noteq> g) cs
   \<and> merging = filter (\<lambda>g. getitem (frames w) (frame_id g) = None) cs
   \<and> (\<forall>g \<in> set cs.
         (g \<in> set conflicting \<longleftrightarrow> (\<exists>f. getitem (frames w) (frame_id g) = Some f \<and> f \<noteq> g))
       \<and> (g \<in> set merging \<longleftrightarrow> \<not> contains (frames w) (frame_id g))
       \<and> (g \<notin> set conflicting \<and> g \<notin> set merging \<longleftrightarrow> getitem (frames w) (frame_id g) = Some g)
       \<and> \<not> (g \<in> set conflicting \<and> g \<in> set merging))"
proof -
  let ?st = "frames w"
  have eq: "(contains ?st (frame_id g) \<and> getitem ?st (frame_id g) \<noteq> Some g)
        \<longleftrightarrow> (\<exists>f. getitem ?st (frame_id g) = Some f \<and> f \<noteq> g)" for g
    using getitem_None [of ?st "frame_id g"] by (cases "getitem ?st (frame_id g)") auto
  have "merge_report w (Content cs) =
      Inr (filter (\<lambda>g. \<exists>f. getitem ?st (frame_id g) = Some f \<and> f \<noteq> g) cs,
           filter (\<lambda>g. getitem ?st (frame_id g) = None) cs)"
    by (simp add: merge_report_def load_json_file_def merge_loop_filter eq getitem_None)
  moreover have "contains ?st (frame_id g) \<longleftrightarrow> getitem ?st (frame_id g) \<noteq> None" for g
    using getitem_None [of ?st "frame_id g"] by simp
  ultimately show ?thesis
    by auto
qed


theorem merge_report_classification_witness:
  "merge_report ex_w
     (Content [ex_local\<lparr>project := ''B''\<rparr>, ex_local\<lparr>frame_id := ''2'', project := ''C''\<rparr>, ex_local]) =
   Inr ([ex_local\<lparr>project := ''B''\<rparr>], [ex_local\<lparr>frame_id := ''2'', project := ''C''\<rparr>])"
  using merge_report_classification [of ex_w
      "[ex_local\<lparr>project := ''B''\<rparr>, ex_local\<lparr>frame_id := ''2'', project := ''C''\<rparr>, ex_local]"]
  by (simp add: ex_w_def ex_local_def getitem_def contains_def)

lemma getitem_setitem: "getitem (setitem st i v) i = Some (v\<lparr>frame_id := i\<rparr>)"
  by (induction st) (auto simp: getitem_def)

lemma returned_Nil: "returned ls ids [] = []"
  by (simp add: returned_def)

lemma returned_Cons:
  "returned ls ids (f # fs) =
     (if frame_id f \<notin> ids \<or> ls < updated_at f then [f] else [])
       @ returned ls (insert (frame_id f) ids) fs"
proof -
  have a: "applies ls ids (f # fs) (Suc i) = applies ls (insert (frame_id f) ids) fs i" for i
    by (simp add: applies_def)
  have b: "applies ls ids (f # fs) 0 = (frame_id f \<notin> ids \<or> ls < updated_at f)"
    by (simp add: applies_def)
  have "[0..<length (f # fs)] = 0 # map Suc [0..<length fs]"
    by (simp add: upt_conv_Cons map_Suc_upt del: upt_Suc)
  then show ?thesis
    by (simp add: returned_def filter_map o_def a b del: upt_Suc)
qed

lemma ids_setitem: "frame_id ` set (setitem st i v) = insert i (frame_id ` set st)"
  by (induction st) auto

lemma contains_ids: "contains st i \<longleftrightarrow> i \<in> frame_id ` set st"
  by (simp add: contains_def)

lemma pull_loop_returned:
  "snd (pull_loop ls st acc ys) = acc @ returned ls (frame_id ` set st) ys"
proof (induction ys arbitrary: st acc)
  case Nil
  then show ?case by (simp add: returned_Nil)
next
  case (Cons f fs)
  show ?case
  proof (cases "\<not> contains st (frame_id f) \<or> updated_at f > ls")
    case True
    then show ?thesis
      using Cons [of "setitem st (frame_id f) f" "acc @ [f]"]
      by (auto simp: returned_Cons ids_setitem contains_ids)
  next
    case False
    then have "insert (frame_id f) (frame_id ` set st) = frame_id ` set st"
      by (auto simp: contains_ids)
    then show ?thesis
      using False Cons [of st acc] by (auto simp: returned_Cons contains_ids)
  qed
qed

lemma getitem_setitem_other: "i \<noteq> j \<Longrightarrow> getitem (setitem st j v) i = getitem st i"
  by (induction st) (auto simp: getitem_def)

lemma find_append_case:
  "find P (xs @ ys) = (case find P xs of None \<Rightarrow> find P ys | Some x \<Rightarrow> Some x)"
  by (induction xs) auto

lemma pull_loop_getitem:
  "getitem (fst (pull_loop ls st acc ys)) i =
     (case find (\<lambda>f. frame_id f = i) (rev (returned ls (frame_id ` set st) ys)) of
        Some f \<Rightarrow> Some f
      | None \<Rightarrow> getitem st i)"
proof (induction ys arbitrary: st acc)
  case Nil
  then show ?case by (simp add: returned_Nil)
next
  case (Cons f fs)
  show ?case
  proof (cases "\<not> contains st (frame_id f) \<or> updated_at f > ls")
    case True
    have g: "getitem (setitem st (frame_id f) f) i =
        (if frame_id f = i then Some f else getitem st i)"
      using getitem_setitem [of st "frame_id f" f] getitem_setitem_other [of i "frame_id f" st f]
      by auto
    show ?thesis
      using True Cons [of "setitem st (frame_id f) f" "acc @ [f]"] g
      by (auto simp: returned_Cons ids_setitem contains_ids find_append_case
          split: option.splits)
  next
    case False
    then have "insert (frame_id f) (frame_id ` set st) = frame_id ` set st"
      by (auto simp: contains_ids)
    then show ?thesis
      using False Cons [of st acc]
      by (auto simp: returned_Cons contains_ids find_append_case split: option.splits)
  qed
qed

lemma returned_subset: "set (returned ls ids ys) \<subseteq> set ys"
  by (auto simp: returned_def)

lemma returned_held:
  "f \<in> set (returned ls ids ys) \<Longrightarrow> frame_id f \<notin> ids \<or> ls < updated_at f"
  by (auto simp: returned_def applies_def)

lemma pull_loop_ids:
  "frame_id ` set (fst (pull_loop ls st acc ys)) = frame_id ` set st \<union> frame_id ` set ys"
proof (induction ys arbitrary: st acc)
  case Nil
  then show ?case by simp
next
  case (Cons g gs)
  show ?case
  proof (cases "\<not> contains st (frame_id g) \<or> updated_at g > ls")
    case True
    then show ?thesis
      using Cons [of "setitem st (frame_id g) g" "acc @ [g]"] by (auto simp: ids_setitem)
  next
    case False
    then show ?thesis
      using Cons [of st acc] by (auto simp: contains_ids)
  qed
qed


lemma find_in_set: "find P xs = Some x \<Longrightarrow> x \<in> set xs \<and> P x"
  by (induction xs) (auto split: if_splits)

text \<open>
  C1. Let the backend yield the frames \<open>ys\<close> and then end or raise. A frame of \<open>ys\<close> is
  applied exactly when, as it arrives, the store does not hold its id or its
  \<open>updated_at\<close> is greater than the cursor read at the start of the call (third
  conjunct: \<open>applies\<close> is that test on the store of that moment). The list \<open>pull\<close>
  returns is the list of the applied frames, in the order received, and nothing else;
  after the call the store holds under each id the last applied frame with that id, and
  what it held before the call when there is none. In particular a frame whose id the
  store holds before the call and whose \<open>updated_at\<close> is at most the cursor is not
  returned, and the store holds it after the call only if it held it before.
\<close>

theorem pull_applies_iff:
  assumes backend: "load_backend eps w = Inr cls"
    and run: "b_pull (cls (watson_config w)) (last_sync w) = (ys, err)"
  shows "fst (Watson_pull eps w) =
           (case err of
              None \<Rightarrow> Inr (returned (last_sync w) (frame_id ` set (frames w)) ys)
            | Some e \<Rightarrow> Inl e)
       \<and> getitem (frames (snd (Watson_pull eps w))) i =
           (case find (\<lambda>f. frame_id f = i)
                   (rev (returned (last_sync w) (frame_id ` set (frames w)) ys)) of
              Some f \<Rightarrow> Some f
            | None \<Rightarrow> getitem (frames w) i)
       \<and> (applies (last_sync w) (frame_id ` set (frames w)) ys j \<longleftrightarrow>
            \<not> contains (fst (pull_loop (last_sync w) (frames w) [] (take j ys)))
                (frame_id (ys ! j))
            \<or> last_sync w < updated_at (ys ! j))
       \<and> (f \<in> set ys \<and> contains (frames w) (frame_id f) \<and> updated_at f \<le> last_sync w
            \<longrightarrow> f \<notin> set (returned (last_sync w) (frame_id ` set (frames w)) ys)
              \<and> (getitem (frames (snd (Watson_pull eps w))) (frame_id f) = Some f
                   \<longrightarrow> getitem (frames w) (frame_id f) = Some f))"
proof -
  let ?ls = "last_sync w"
  let ?R = "returned ?ls (frame_id ` set (frames w)) ys"
  obtain st acc where lp: "pull_loop ?ls (frames w) [] ys = (st, acc)"
    by (cases "pull_loop ?ls (frames w) [] ys")
  have acc: "acc = ?R"
    using pull_loop_returned [of ?ls "frames w" "[]" ys] lp by simp
  have wp: "Watson_pull eps w =
      ((case err of None \<Rightarrow> Inr acc | Some e \<Rightarrow> Inl e), w\<lparr>frames := st\<rparr>)"
    using backend run lp by (simp add: Watson_pull_def)
  have 1: "fst (Watson_pull eps w) = (case err of None \<Rightarrow> Inr ?R | Some e \<Rightarrow> Inl e)"
    using wp acc by (simp split: option.splits)
  have get: "getitem (frames (snd (Watson_pull eps w))) k =
      (case find (\<lambda>f. frame_id f = k) (rev ?R) of Some f \<Rightarrow> Some f
       | None \<Rightarrow> getitem (frames w) k)" for k
    using pull_loop_getitem [of ?ls "frames w" "[]" ys k] lp wp by simp
  have 3: "applies ?ls (frame_id ` set (frames w)) ys j \<longleftrightarrow>
      \<not> contains (fst (pull_loop ?ls (frames w) [] (take j ys))) (frame_id (ys ! j))
      \<or> ?ls < updated_at (ys ! j)"
    using pull_loop_ids [of ?ls "frames w" "[]" "take j ys"]
    by (simp add: applies_def contains_ids)
  have 4: "f \<notin> set ?R
      \<and> (getitem (frames (snd (Watson_pull eps w))) (frame_id f) = Some f
           \<longrightarrow> getitem (frames w) (frame_id f) = Some f)"
    if h: "f \<in> set ys \<and> contains (frames w) (frame_id f) \<and> updated_at f \<le> ?ls"
  proof -
    have nf: "f \<notin> set ?R"
      using h returned_held [of f ?ls "frame_id ` set (frames w)" ys]
      by (auto simp: contains_ids)
    have "getitem (frames w) (frame_id f) = Some f"
      if g: "getitem (frames (snd (Watson_pull eps w))) (frame_id f) = Some f"
    proof (cases "find (\<lambda>x. frame_id x = frame_id f) (rev ?R)")
      case None
      then show ?thesis using g get [of "frame_id f"] by simp
    next
      case (Some x)
      then have "x \<in> set ?R" using find_in_set [OF Some] by simp
      moreover have "x = f" using g get [of "frame_id f"] Some by simp
      ultimately show ?thesis using nf by simp
    qed
    then show ?thesis using nf by blast
  qed
  show ?thesis using 1 get [of i] 3 4 by blast
qed

theorem pull_applies_iff_witness:
  "fst (Watson_pull (ex_eps [ex_remote ''1'' 20 100, ex_remote ''2'' 20 50, ex_remote ''1'' 30 150]) ex_w)
     = Inr [ex_frame ''2'' 20 50, ex_frame ''1'' 30 150]
 \<and> frames (snd (Watson_pull (ex_eps [ex_remote ''1'' 20 100, ex_remote ''2'' 20 50, ex_remote ''1'' 30 150]) ex_w))
     = [ex_frame ''1'' 30 150, ex_frame ''2'' 20 50]
 \<and> ex_frame ''1'' 20 100 \<notin> set [ex_frame ''2'' 20 50, ex_frame ''1'' 30 150]"
proof -
  let ?rs = "[ex_remote ''1'' 20 100, ex_remote ''2'' 20 50, ex_remote ''1'' 30 150]"
  let ?ys = "[ex_frame ''1'' 20 100, ex_frame ''2'' 20 50, ex_frame ''1'' 30 150]"
  let ?cls = "ArtichIOSync_class (ex_net ?rs) 0 ex_str"
  have h1: "load_backend (ex_eps ?rs) ex_w = Inr ?cls"
    by (simp add: load_backend_def ex_eps_def ex_w_def)
  have h2: "b_pull (?cls (watson_config ex_w)) (last_sync ex_w) = (?ys, None)"
    by (simp add: ex_defs run_defs)
  have r: "returned (last_sync ex_w) (frame_id ` set (frames ex_w)) ?ys =
      [ex_frame ''2'' 20 50, ex_frame ''1'' 30 150]"
    by (simp add: returned_Cons returned_Nil ex_w_def ex_local_def ex_frame_def)
  have c: "ex_frame ''1'' 20 100 \<in> set ?ys \<and> contains (frames ex_w) (frame_id (ex_frame ''1'' 20 100))
      \<and> updated_at (ex_frame ''1'' 20 100) \<le> last_sync ex_w"
    by (simp add: contains_def ex_w_def ex_local_def ex_frame_def)
  show ?thesis
    using pull_applies_iff [OF h1 h2, of "''1''" 0 "ex_frame ''1'' 20 100"] r c
    by (simp add: Watson_pull_def ex_defs run_defs)
qed

text \<open>
  C2. \<open>push last_pull\<close> hands to the backend's \<open>push\<close> the batch \<open>push_batch\<close>, and
  a frame is in the batch exactly when it is in the store and
  \<open>last_sync < updated_at < last_pull\<close>, both comparisons strict.
\<close>

theorem push_window:
  assumes "load_backend eps w = Inr cls"
  shows "Watson_push eps w last_pull =
           (b_push (cls (watson_config w)) (push_batch w last_pull), w)
       \<and> (f \<in> set (push_batch w last_pull) \<longleftrightarrow>
            f \<in> set (frames w) \<and> last_sync w < updated_at f \<and> updated_at f < last_pull)"
  using assms by (auto simp: Watson_push_def push_batch_def)

theorem push_window_witness:
  "push_batch (ex_w\<lparr>frames := [ex_frame ''1'' 20 50, ex_frame ''2'' 20 150, ex_frame ''3'' 20 200,
       ex_frame ''4'' 20 250]\<rparr>) 200 = [ex_frame ''2'' 20 150]
 \<and> fst (Watson_push (ex_eps []) (ex_w\<lparr>frames := [ex_frame ''1'' 20 50, ex_frame ''2'' 20 150,
       ex_frame ''3'' 20 200, ex_frame ''4'' 20 250]\<rparr>) 200)
     = Inr [\<lparr>u_id = ''2'', u_start = ex_str 10, u_stop = ex_str 20,
            u_project = ''http://h/projects/1/'', u_tags = []\<rparr>]"
proof -
  let ?w = "ex_w\<lparr>frames := [ex_frame ''1'' 20 50, ex_frame ''2'' 20 150, ex_frame ''3'' 20 200,
       ex_frame ''4'' 20 250]\<rparr>"
  have h: "load_backend (ex_eps []) ?w = Inr (ArtichIOSync_class (ex_net []) 0 ex_str)"
    by (simp add: load_backend_def ex_eps_def ex_w_def)
  have b: "push_batch ?w 200 = [ex_frame ''2'' 20 150]"
    by (simp add: push_batch_def ex_w_def ex_frame_def)
  show ?thesis
    using push_window [OF h, of 200 "ex_frame ''2'' 20 150"] b
    by (simp add: ex_defs run_defs)
qed

text \<open>
  C7. Neither \<open>pull\<close> nor \<open>push\<close> changes the cursor \<open>last_sync\<close>, whether the call
  returns or raises.
\<close>

theorem cursor_unchanged:
  "last_sync (snd (Watson_pull eps w)) = last_sync w
 \<and> last_sync (snd (Watson_push eps w last_pull)) = last_sync w"
  by (auto simp: Watson_pull_def Watson_push_def split: sum.splits prod.splits)

theorem cursor_unchanged_witness:
  "last_sync (snd (Watson_pull (ex_eps [ex_remote ''2'' 20 150]) ex_w)) = 100
 \<and> last_sync (snd (Watson_push (ex_eps [ex_remote ''2'' 20 150]) ex_w 200)) = 100
 \<and> last_sync (snd (Watson_pull [] ex_w)) = 100"
  using cursor_unchanged [of "ex_eps [ex_remote ''2'' 20 150]" ex_w 200]
    cursor_unchanged [of "[]" ex_w 200]
  by (simp add: ex_w_def)

lemma get_remote_projects_cached:
  "remote_projects s = Some ps \<Longrightarrow> get_remote_projects net s = (Inr ps, s)"
  by (simp add: get_remote_projects_def)

lemma get_remote_projects_ok:
  assumes "get_remote_projects net s = (Inr ps, s1)"
  shows "remote_projects s1 = Some ps" and "config s1 = config s"
    and "remote_projects s \<noteq> None \<Longrightarrow> s1 = s"
    and "remote_projects s = None \<Longrightarrow> \<exists>d h. get_request_info (config s) ''projects'' = Inr (d, h)
           \<and> sent s1 = sent s @ [GET d [] h]"
  using assms
  by (auto simp: get_remote_projects_def Let_def
      split: option.splits sum.splits prod.splits response.splits if_splits)

lemma get_remote_projects_no_POST:
  "filter is_POST (sent (snd (get_remote_projects net s))) = filter is_POST (sent s)"
  by (auto simp: get_remote_projects_def Let_def
      split: option.splits sum.splits prod.splits response.splits if_splits)

lemma find_resolves: "find (\<lambda>p. name p = project f) ps = None \<longleftrightarrow> \<not> resolves ps f"
  unfolding resolves_def find_None_iff by force

lemma push_frames_all:
  "remote_projects s = Some ps \<Longrightarrow> \<forall>f\<in>set fs. resolves ps f \<Longrightarrow>
     push_frames net str s acc fs = (Inr (acc @ map (record_of str ps) fs), s)"
proof (induction fs arbitrary: acc)
  case Nil
  then show ?case by simp
next
  case (Cons f fs)
  from Cons.prems obtain p where p: "find (\<lambda>p. name p = project f) ps = Some p"
    using find_resolves [of f ps] by (cases "find (\<lambda>p. name p = project f) ps") auto
  have "push_frames net str s acc (f # fs) =
      push_frames net str s (acc @ [record_of str ps f]) fs"
    using Cons.prems(1) p by (simp add: get_remote_projects_cached record_of_def)
  then show ?case using Cons by simp
qed

lemma push_frames_bad:
  "remote_projects s = Some ps \<Longrightarrow> \<forall>g\<in>set good. resolves ps g \<Longrightarrow> \<not> resolves ps f \<Longrightarrow>
     push_frames net str s acc (good @ f # rest) =
       (Inl (Raised WatsonError (ProjectDoesNotExist (project f) (frame_id f))), s)"
proof (induction good arbitrary: acc)
  case Nil
  then show ?case
    using find_resolves [of f ps] by (simp add: get_remote_projects_cached)
next
  case (Cons g good)
  from Cons.prems obtain p where p: "find (\<lambda>p. name p = project g) ps = Some p"
    using find_resolves [of g ps] by (cases "find (\<lambda>p. name p = project g) ps") auto
  then show ?case
    using Cons by (simp add: get_remote_projects_cached)
qed

lemma push_frames_first:
  assumes "get_remote_projects net s = (Inr ps, s1)" and "fs \<noteq> []"
  shows "push_frames net str s acc fs = push_frames net str s1 acc fs"
proof -
  obtain f fs' where fs: "fs = f # fs'" using assms(2) by (cases fs) auto
  have "get_remote_projects net s1 = (Inr ps, s1)"
    using get_remote_projects_ok(1) [OF assms(1)] by (rule get_remote_projects_cached)
  then show ?thesis using assms(1) fs by simp
qed

lemmas ex_defs2 = ex_defs ex_config_def ex_headers_def ex_fetched_def

text \<open>
  C4. Let the instance be configured and let it hold or obtain the project listing
  \<open>ps\<close>. If some frame of the batch has a project that no project of \<open>ps\<close> is
  named after, \<open>push\<close> raises the project-does-not-exist error of such a frame, and
  the instance has issued no POST beyond those it had issued before the call: the batch
  is checked against the listing before anything goes to the bulk endpoint.
\<close>

theorem push_validates_first:
  assumes cfg: "get_request_info (config s) ''frames/bulk'' = Inr (dest, hs)"
    and listing: "get_remote_projects net s = (Inr ps, s1)"
    and bad: "f \<in> set fs" "\<not> resolves ps f"
  shows "\<exists>g \<in> set fs. \<not> resolves ps g
           \<and> ArtichIOSync_push net str s fs =
               (Inl (Raised WatsonError (ProjectDoesNotExist (project g) (frame_id g))), s1)
           \<and> filter is_POST (sent s1) = filter is_POST (sent s)"
proof -
  obtain good g rest where split: "fs = good @ g # rest" "\<not> resolves ps g"
      "\<forall>y\<in>set good. resolves ps y"
    using bad split_list_first_prop [of fs "\<lambda>x. \<not> resolves ps x"] by auto
  have ne: "fs \<noteq> []" using split(1) by simp
  have "push_frames net str s [] fs = push_frames net str s1 [] fs"
    using push_frames_first [OF listing ne] .
  also have "\<dots> = (Inl (Raised WatsonError (ProjectDoesNotExist (project g) (frame_id g))), s1)"
    unfolding split(1)
    using push_frames_bad [OF get_remote_projects_ok(1) [OF listing] split(3) split(2)] .
  finally have "ArtichIOSync_push net str s fs =
      (Inl (Raised WatsonError (ProjectDoesNotExist (project g) (frame_id g))), s1)"
    using cfg by (simp add: ArtichIOSync_push_def)
  moreover have "filter is_POST (sent s1) = filter is_POST (sent s)"
    using get_remote_projects_no_POST [of net s] listing by simp
  moreover have "g \<in> set fs" using split(1) by simp
  ultimately show ?thesis using split(2) by blast
qed

theorem push_validates_first_witness:
  "ArtichIOSync_push (ex_net []) ex_str (init ex_config)
       [ex_frame ''1'' 20 50, (ex_frame ''2'' 20 60)\<lparr>project := ''Z''\<rparr>] =
     (Inl (Raised WatsonError (ProjectDoesNotExist ''Z'' ''2'')), ex_fetched)
 \<and> filter is_POST (sent ex_fetched) = []"
proof -
  let ?fs = "[ex_frame ''1'' 20 50, (ex_frame ''2'' 20 60)\<lparr>project := ''Z''\<rparr>]"
  have h1: "get_request_info (config (init ex_config)) ''frames/bulk'' =
      Inr (''http://h/frames/bulk/'', ex_headers)"
    by (simp add: ex_defs2 run_defs)
  have h2: "get_remote_projects (ex_net []) (init ex_config) = (Inr ex_projects, ex_fetched)"
    by (simp add: ex_defs2 run_defs)
  have h3: "(ex_frame ''2'' 20 60)\<lparr>project := ''Z''\<rparr> \<in> set ?fs"
    by simp
  have h4: "\<not> resolves ex_projects ((ex_frame ''2'' 20 60)\<lparr>project := ''Z''\<rparr>)"
    by (simp add: resolves_def ex_defs2)
  show ?thesis
    using push_validates_first [OF h1 h2 h3 h4, of ex_str]
    by (auto simp: resolves_def ex_defs2)
qed

text \<open>
  C10. Let the instance be configured, let it hold or obtain the listing \<open>ps\<close>, and let
  every frame of the batch resolve in \<open>ps\<close>. When the bulk request is answered with
  status 201 and any body \<open>b\<close>, \<open>push\<close> returns the records of the frames: one for
  each frame, in the order of the batch, each made of the frame's id, its start and stop
  as strings, the URL of its project in \<open>ps\<close>, and its tags. The body \<open>b\<close> does not
  occur in the result.
\<close>

theorem push_returns_records:
  assumes cfg: "get_request_info (config s) ''frames/bulk'' = Inr (dest, hs)"
    and listing: "get_remote_projects net s = (Inr ps, s1)"
    and resolve: "\<forall>f \<in> set fs. resolves ps f"
    and created: "post_bulk net (sent (if fs = [] then s else s1))
        (POST dest (map (record_of str ps) fs) hs) = Response 201 b"
  shows "fst (ArtichIOSync_push net str s fs) = Inr (map (record_of str ps) fs)
       \<and> length (map (record_of str ps) fs) = length fs
       \<and> sent (snd (ArtichIOSync_push net str s fs)) =
           sent (if fs = [] then s else s1) @ [POST dest (map (record_of str ps) fs) hs]"
proof (cases "fs = []")
  case True
  then show ?thesis using cfg created by (simp add: ArtichIOSync_push_def)
next
  case False
  have "push_frames net str s [] fs = push_frames net str s1 [] fs"
    using push_frames_first [OF listing False] .
  also have "\<dots> = (Inr (map (record_of str ps) fs), s1)"
    using push_frames_all [OF get_remote_projects_ok(1) [OF listing] resolve, of net str "[]"]
    by simp
  finally show ?thesis
    using cfg created False by (simp add: ArtichIOSync_push_def)
qed

theorem push_returns_records_witness:
  "fst (ArtichIOSync_push (ex_net []) ex_str (init ex_config)
       [ex_frame ''1'' 20 50, ex_frame ''2'' 30 60]) =
     Inr [\<lparr>u_id = ''1'', u_start = ex_str 10, u_stop = ex_str 20,
            u_project = ''http://h/projects/1/'', u_tags = []\<rparr>,
          \<lparr>u_id = ''2'', u_start = ex_str 10, u_stop = ex_str 30,
            u_project = ''http://h/projects/1/'', u_tags = []\<rparr>]"
proof -
  let ?fs = "[ex_frame ''1'' 20 50, ex_frame ''2'' 30 60]"
  have h1: "get_request_info (config (init ex_config)) ''frames/bulk'' =
      Inr (''http://h/frames/bulk/'', ex_headers)"
    by (simp add: ex_defs2 run_defs)
  have h2: "get_remote_projects (ex_net []) (init ex_config) = (Inr ex_projects, ex_fetched)"
    by (simp add: ex_defs2 run_defs)
  have h3: "\<forall>f \<in> set ?fs. resolves ex_projects f"
    by (simp add: resolves_def ex_defs2)
  have h4: "post_bulk (ex_net []) (sent (if ?fs = [] then init ex_config else ex_fetched))
      (POST ''http://h/frames/bulk/'' (map (record_of ex_str ex_projects) ?fs) ex_headers) =
      Response 201 (Some ''[]'')"
    by (simp add: ex_net_def)
  show ?thesis
    using push_returns_records [OF h1 h2 h3 h4]
    by (simp add: record_of_def ex_projects_def ex_frame_def)
qed

lemma pull_frames_cached:
  "remote_projects s = Some ps \<Longrightarrow> snd (pull_frames net now s fs) = s"
  by (induction fs) (auto simp: get_remote_projects_cached split: option.splits prod.splits)

lemma push_frames_cached:
  "remote_projects s = Some ps \<Longrightarrow> snd (push_frames net str s acc fs) = s"
  by (induction fs arbitrary: acc)
    (auto simp: get_remote_projects_cached split: option.splits prod.splits)

lemma pull_keeps_projects:
  assumes "remote_projects s = Some ps"
  shows "remote_projects (snd (ArtichIOSync_pull net now s ls)) = Some ps"
proof (cases "get_request_info (config s) ''frames''")
  case (Inl e)
  then show ?thesis using assms by (simp add: ArtichIOSync_pull_def)
next
  case (Inr p)
  obtain d h where p: "p = (d, h)" by (cases p)
  let ?s1 = "s\<lparr>sent := sent s @ [GET d [(''last_sync'', ls)] h]\<rparr>"
  have c: "remote_projects ?s1 = Some ps" using assms by simp
  show ?thesis
    using Inr p assms pull_frames_cached [OF c, of net now]
    by (auto simp: ArtichIOSync_pull_def Let_def split: response.splits sum.splits)
qed

lemma push_keeps_projects:
  assumes "remote_projects s = Some ps"
  shows "remote_projects (snd (ArtichIOSync_push net str s fs)) = Some ps"
proof (cases "get_request_info (config s) ''frames/bulk''")
  case (Inl e)
  then show ?thesis using assms by (simp add: ArtichIOSync_push_def)
next
  case (Inr p)
  obtain d h where p: "p = (d, h)" by (cases p)
  obtain r s1 where r: "push_frames net str s [] fs = (r, s1)"
    by (cases "push_frames net str s [] fs")
  have s1: "s1 = s" using push_frames_cached [OF assms, of net str "[]" fs] r by simp
  show ?thesis
    using Inr p r s1 assms
    by (auto simp: ArtichIOSync_push_def Let_def split: response.splits sum.splits)
qed

lemma get_remote_projects_fails:
  assumes "get_remote_projects net s = (Inl e, s1)"
  shows "remote_projects s1 = None" and "config s1 = config s"
    and "get_request_info (config s) ''projects'' = Inr (d, h) \<Longrightarrow> sent s1 = sent s @ [GET d [] h]"
  using assms
  by (auto simp: get_remote_projects_def Let_def
      split: option.splits sum.splits prod.splits response.splits if_splits)

lemma get_remote_projects_sends:
  "remote_projects s = None \<Longrightarrow> get_request_info (config s) ''projects'' = Inr (d, h) \<Longrightarrow>
     sent (snd (get_remote_projects net s)) = sent s @ [GET d [] h]"
  by (auto simp: get_remote_projects_def Let_def
      split: option.splits sum.splits prod.splits response.splits if_splits)

text \<open>
  C8, as stated, fails: on an instance whose first request for the listing meets a
  connection failure, the first call of the helper raises and keeps nothing, and the
  second call issues a second request to the projects endpoint.
\<close>

theorem projects_fetched_twice:
  "get_remote_projects ex_flaky (init ex_config) =
     (Inl (Raised WatsonError UnableToReachServer),
      \<lparr>config = ex_config, remote_projects = None,
       sent = [GET ''http://h/projects/'' [] ex_headers]\<rparr>)
 \<and> get_remote_projects ex_flaky
       \<lparr>config = ex_config, remote_projects = None,
        sent = [GET ''http://h/projects/'' [] ex_headers]\<rparr> =
     (Inr ex_projects,
      \<lparr>config = ex_config, remote_projects = Some ex_projects,
       sent = [GET ''http://h/projects/'' [] ex_headers,
               GET ''http://h/projects/'' [] ex_headers]\<rparr>)"
  by (simp add: ex_flaky_def ex_defs2 run_defs)

text \<open>
  C8, amended. A call of the helper that returns the listing \<open>ps\<close> leaves it memoized;
  if the instance held no listing the call has issued one request, the GET of the
  destination of the route \<open>projects\<close>, and if it held one the call has issued none.
  Every later call on the instance, also after a \<open>pull\<close> or a \<open>push\<close> on it and
  whatever the network then answers, returns \<open>ps\<close> and leaves the instance, hence the
  requests it has issued, as it was. A call that raises leaves no listing memoized; on an
  instance with URL and token configured that call has issued its request to the projects
  endpoint, and the next call issues a request to the projects endpoint again.
\<close>

theorem projects_memoized:
  assumes "get_remote_projects net s = (Inr ps, s1)"
    and "get_remote_projects net2 t = (Inl e, t1)"
    and "get_request_info (config t) ''projects'' = Inr (pd, ph)"
  shows "remote_projects s1 = Some ps
       \<and> (remote_projects s = None \<longrightarrow>
            (\<exists>d h. get_request_info (config s) ''projects'' = Inr (d, h)
               \<and> sent s1 = sent s @ [GET d [] h]))
       \<and> (remote_projects s \<noteq> None \<longrightarrow> s1 = s)
       \<and> get_remote_projects net' s1 = (Inr ps, s1)
       \<and> get_remote_projects net' (snd (ArtichIOSync_pull net' now s1 ls)) =
            (Inr ps, snd (ArtichIOSync_pull net' now s1 ls))
       \<and> get_remote_projects net' (snd (ArtichIOSync_push net' str s1 fs)) =
            (Inr ps, snd (ArtichIOSync_push net' str s1 fs))
       \<and> remote_projects t1 = None
       \<and> sent t1 = sent t @ [GET pd [] ph]
       \<and> sent (snd (get_remote_projects net3 t1)) = sent t1 @ [GET pd [] ph]"
proof -
  have c: "remote_projects s1 = Some ps"
    using get_remote_projects_ok(1) [OF assms(1)] .
  have 1: "remote_projects s = None \<longrightarrow>
            (\<exists>d h. get_request_info (config s) ''projects'' = Inr (d, h)
               \<and> sent s1 = sent s @ [GET d [] h])"
    using get_remote_projects_ok(4) [OF assms(1)] by blast
  have 2: "remote_projects s \<noteq> None \<longrightarrow> s1 = s"
    using get_remote_projects_ok(3) [OF assms(1)] by blast
  have 3: "get_remote_projects net' s1 = (Inr ps, s1)"
    using c by (rule get_remote_projects_cached)
  have 4: "get_remote_projects net' (snd (ArtichIOSync_pull net' now s1 ls)) =
            (Inr ps, snd (ArtichIOSync_pull net' now s1 ls))"
    using pull_keeps_projects [OF c] by (rule get_remote_projects_cached)
  have 5: "get_remote_projects net' (snd (ArtichIOSync_push net' str s1 fs)) =
            (Inr ps, snd (ArtichIOSync_push net' str s1 fs))"
    using push_keeps_projects [OF c] by (rule get_remote_projects_cached)
  have 6: "remote_projects t1 = None"
    using assms(2) by (rule get_remote_projects_fails(1))
  have 7: "sent t1 = sent t @ [GET pd [] ph]"
    using get_remote_projects_fails(3) [OF assms(2) assms(3)] .
  have "get_request_info (config t1) ''projects'' = Inr (pd, ph)"
    using get_remote_projects_fails(2) [OF assms(2)] assms(3) by simp
  then have 8: "sent (snd (get_remote_projects net3 t1)) = sent t1 @ [GET pd [] ph]"
    using 6 by (simp add: get_remote_projects_sends)
  show ?thesis using c 1 2 3 4 5 6 7 8 by blast
qed

theorem projects_memoized_witness:
  "get_remote_projects ex_down ex_fetched = (Inr ex_projects, ex_fetched)
 \<and> sent ex_fetched = sent (init ex_config) @ [GET ''http://h/projects/'' [] ex_headers]
 \<and> sent (snd (get_remote_projects ex_flaky
       \<lparr>config = ex_config, remote_projects = None,
        sent = [GET ''http://h/projects/'' [] ex_headers]\<rparr>)) =
     [GET ''http://h/projects/'' [] ex_headers, GET ''http://h/projects/'' [] ex_headers]"
proof -
  have h1: "get_remote_projects (ex_net []) (init ex_config) = (Inr ex_projects, ex_fetched)"
    by (simp add: ex_defs2 run_defs)
  have h2: "get_remote_projects ex_flaky (init ex_config) =
      (Inl (Raised WatsonError UnableToReachServer),
       \<lparr>config = ex_config, remote_projects = None,
        sent = [GET ''http://h/projects/'' [] ex_headers]\<rparr>)"
    by (simp add: ex_flaky_def ex_defs2 run_defs)
  have h3: "get_request_info (config (init ex_config)) ''projects'' =
      Inr (''http://h/projects/'', ex_headers)"
    by (simp add: ex_defs2 run_defs)
  show ?thesis
    using projects_memoized [OF h1 h2 h3, of ex_down _ _ _ _ ex_flaky]
    by (simp add: ex_defs2 run_defs)
qed






text \<open>
  C5, as stated, fails for \<open>pull\<close>: the backend yields a first frame, which is stored,
  and raises at the second, whose project URL is not in the listing. The call raises, and
  the store holds the first frame, which it did not hold before the call.
\<close>

theorem pull_partial_state:
  "isl (fst (Watson_pull (ex_eps ex_unknown) ex_w))
 \<and> frames ex_w = [ex_local]
 \<and> frames (snd (Watson_pull (ex_eps ex_unknown) ex_w)) = [ex_local, ex_frame ''2'' 20 50]
 \<and> snd (Watson_pull (ex_eps ex_unknown) ex_w) \<noteq> ex_w"
  by (simp add: Watson_pull_def ex_unknown_def ex_defs2 run_defs)

text \<open>
  C5, amended. \<open>push\<close> leaves the object as it was, whether it returns or raises, and
  \<open>pull\<close> leaves the cursor as it was. A \<open>pull\<close> that raises because no backend can
  be loaded, or because the backend raises before it has yielded a frame, leaves the
  object as it was; the HTTP backend raises so on a connection failure of its frames
  request and on a status of it other than 200, whatever the body. A \<open>pull\<close> whose
  backend raises after it has yielded the frames \<open>ys\<close> raises the same exception, and
  the frames applied before the failure stay applied: the store then holds the id of every
  frame of \<open>ys\<close>, and under each id the last frame of \<open>ys\<close> with that id that passed
  the test of \<open>applies\<close>, or what it held before the call when there is none.
\<close>

theorem failed_sync_state:
  assumes "load_backend eps1 w1 = Inl e1"
    and "load_backend eps w = Inr cls"
    and "b_pull (cls (watson_config w)) (last_sync w) = (ys, Some e)"
    and "load_backend eps3 w3 = Inr cls3"
    and "b_pull (cls3 (watson_config w3)) (last_sync w3) = ([], Some e3)"
    and "get_request_info c ''frames'' = Inr (d, h)"
    and "get_frames netA [] (GET d [(''last_sync'', ls)] h) = ConnectionError"
    and "get_frames netB [] (GET d [(''last_sync'', ls)] h) = Response code b"
    and "code \<noteq> 200"
  shows "Watson_pull eps1 w1 = (Inl e1, w1)
       \<and> fst (Watson_pull eps w) = Inl e
       \<and> (f \<in> set ys \<longrightarrow> contains (frames (snd (Watson_pull eps w))) (frame_id f))
       \<and> getitem (frames (snd (Watson_pull eps w))) i =
           (case find (\<lambda>f. frame_id f = i)
                   (rev (returned (last_sync w) (frame_id ` set (frames w)) ys)) of
              Some f \<Rightarrow> Some f
            | None \<Rightarrow> getitem (frames w) i)
       \<and> Watson_pull eps3 w3 = (Inl e3, w3)
       \<and> b_pull (ArtichIOSync_class netA now str c) ls =
           ([], Some (Raised WatsonError UnableToReachServer))
       \<and> b_pull (ArtichIOSync_class netB now str c) ls =
           ([], Some (case b of
                        Some fs \<Rightarrow> Raised WatsonError (RemoteServerError (JFrames fs))
                      | None \<Rightarrow> Raised ValueError JSONDecodeError))
       \<and> snd (Watson_push eps2 w2 last_pull) = w2
       \<and> last_sync (snd (Watson_pull eps2 w2)) = last_sync w2"
proof -
  let ?ls = "last_sync w"
  obtain st acc where lp: "pull_loop ?ls (frames w) [] ys = (st, acc)"
    by (cases "pull_loop ?ls (frames w) [] ys")
  have wp: "Watson_pull eps w = (Inl e, w\<lparr>frames := st\<rparr>)"
    using assms(2,3) lp by (simp add: Watson_pull_def)
  have 1: "Watson_pull eps1 w1 = (Inl e1, w1)"
    using assms(1) by (simp add: Watson_pull_def)
  have 2: "fst (Watson_pull eps w) = Inl e"
    using wp by simp
  have 3: "f \<in> set ys \<longrightarrow> contains (frames (snd (Watson_pull eps w))) (frame_id f)"
    using pull_loop_ids [of ?ls "frames w" "[]" ys] lp wp by (auto simp: contains_ids)
  have 4: "getitem (frames (snd (Watson_pull eps w))) i =
           (case find (\<lambda>f. frame_id f = i)
                   (rev (returned ?ls (frame_id ` set (frames w)) ys)) of
              Some f \<Rightarrow> Some f
            | None \<Rightarrow> getitem (frames w) i)"
    using pull_loop_getitem [of ?ls "frames w" "[]" ys i] lp wp by simp
  have 5: "Watson_pull eps3 w3 = (Inl e3, w3)"
    using assms(4,5) by (simp add: Watson_pull_def)
  have 6: "b_pull (ArtichIOSync_class netA now str c) ls =
           ([], Some (Raised WatsonError UnableToReachServer))"
    using assms(6,7) by (simp add: ArtichIOSync_class_def ArtichIOSync_pull_def init_def)
  have 7: "b_pull (ArtichIOSync_class netB now str c) ls =
           ([], Some (case b of
                        Some fs \<Rightarrow> Raised WatsonError (RemoteServerError (JFrames fs))
                      | None \<Rightarrow> Raised ValueError JSONDecodeError))"
    using assms(6,8,9)
    by (simp add: ArtichIOSync_class_def ArtichIOSync_pull_def init_def json_def
        split: option.splits)
  have 8: "snd (Watson_push eps2 w2 last_pull) = w2"
    by (simp add: Watson_push_def split: sum.splits)
  have 9: "last_sync (snd (Watson_pull eps2 w2)) = last_sync w2"
    by (simp add: Watson_pull_def split: sum.splits prod.splits)
  show ?thesis using 1 2 3 4 5 6 7 8 9 by blast
qed

theorem failed_sync_state_witness:
  "Watson_pull [] ex_w = (Inl (Raised WatsonError (BackendNotInstalled ''artichio'')), ex_w)
 \<and> fst (Watson_pull (ex_eps ex_unknown) ex_w) = Inl (Raised TypeError StringIndices)
 \<and> getitem (frames (snd (Watson_pull (ex_eps ex_unknown) ex_w))) ''2'' = Some (ex_frame ''2'' 20 50)
 \<and> getitem (frames ex_w) ''2'' = None
 \<and> Watson_pull ex_eps_down ex_w = (Inl (Raised WatsonError UnableToReachServer), ex_w)"
proof -
  have h1: "load_backend [] ex_w = Inl (Raised WatsonError (BackendNotInstalled ''artichio''))"
    by (simp add: load_backend_def ex_w_def)
  have h2: "load_backend (ex_eps ex_unknown) ex_w =
      Inr (ArtichIOSync_class (ex_net ex_unknown) 0 ex_str)"
    by (simp add: load_backend_def ex_eps_def ex_w_def)
  have h3: "b_pull (ArtichIOSync_class (ex_net ex_unknown) 0 ex_str (watson_config ex_w))
        (last_sync ex_w) = ([ex_frame ''2'' 20 50], Some (Raised TypeError StringIndices))"
    by (simp add: ex_unknown_def ex_defs2 run_defs)
  have h4: "load_backend ex_eps_down ex_w = Inr (ArtichIOSync_class ex_down 0 ex_str)"
    by (simp add: load_backend_def ex_eps_down_def ex_w_def)
  have h5: "b_pull (ArtichIOSync_class ex_down 0 ex_str (watson_config ex_w)) (last_sync ex_w)
      = ([], Some (Raised WatsonError UnableToReachServer))"
    by (simp add: ex_down_def ex_defs2 run_defs)
  have h6: "get_request_info ex_config ''frames'' = Inr (''http://h/frames/'', ex_headers)"
    by (simp add: ex_defs2 run_defs)
  have h7: "get_frames ex_down [] (GET ''http://h/frames/'' [(''last_sync'', 100)] ex_headers)
      = ConnectionError"
    by (simp add: ex_down_def)
  have h8: "get_frames ex_500 [] (GET ''http://h/frames/'' [(''last_sync'', 100)] ex_headers)
      = Response 500 (Some [])"
    by (simp add: ex_500_def)
  have h9: "(500::nat) \<noteq> 200" by simp
  have r: "returned (last_sync ex_w) (frame_id ` set (frames ex_w)) [ex_frame ''2'' 20 50] =
      [ex_frame ''2'' 20 50]"
    by (simp add: returned_Cons returned_Nil ex_w_def ex_local_def ex_frame_def)
  have g: "getitem (frames ex_w) ''2'' = None"
    by (simp add: getitem_def ex_w_def ex_local_def)
  show ?thesis
    using failed_sync_state [OF h1 h2 h3 h4 h5 h6 h7 h8 h9, where i = "''2''"] r g
    by (simp add: ex_frame_def)
qed

end
